theory Spec2Isabelle
  imports Complex_Main "HOL-Library.Multiset"
begin

section \<open>Coverage records\<close>

text \<open>
  The coverage engine of \<^verbatim>\<open>src/index.js\<close>: \<^verbatim>\<open>sumLcov\<close>, \<^verbatim>\<open>isPassed\<close>,
  \<^verbatim>\<open>calculateLineCoverage\<close>, \<^verbatim>\<open>checkAllIndividualFilesPassed\<close>, the verdict
  \<^verbatim>\<open>bothPassed\<close> computed by \<^verbatim>\<open>run\<close>, and the renderers \<^verbatim>\<open>renderLcovPercentage\<close>,
  \<^verbatim>\<open>renderPassed\<close>, \<^verbatim>\<open>renderLcovOverall\<close> and \<^verbatim>\<open>renderLcovFiles\<close>.

  Numbers. A counter (\<^verbatim>\<open>found\<close>, \<^verbatim>\<open>hit\<close>) is a count produced by the LCOV parser
  and is a \<open>nat\<close>. A percentage and a configured minimum are JavaScript numbers; they
  are modelled as \<open>real\<close>, so \<^verbatim>\<open>hit * 100 / found\<close> is the exact quotient. (The
  double-precision quotient is the exact one rounded to nearest. Against an integer
  minimum the two compare alike as long as the counters stay below \<open>2^46\<close>; against a
  minimum that is not an integer they can differ when the exact quotient lies within
  rounding distance below it.) The values \<^verbatim>\<open>NaN\<close> and \<^verbatim>\<open>Infinity\<close> are not
  modelled: \<^verbatim>\<open>run\<close> replaces a \<^verbatim>\<open>NaN\<close> minimum by \<open>0\<close>
  (\<^verbatim>\<open>parseFloat(...) || 0\<close>).
\<close>

record lcov_count =
  found :: nat
  hit :: nat

text \<open>One item of the parser's output: \<^verbatim>\<open>{file, lines, functions, branches}\<close>.\<close>

record lcov_item =
  file' :: string
  lines :: lcov_count
  functions' :: lcov_count
  branches :: lcov_count

section \<open>Aggregation\<close>

text \<open>
  The callback of \<^verbatim>\<open>data.reduce\<close> in \<^verbatim>\<open>sumLcov\<close>: the six \<^verbatim>\<open>+=\<close>, applied to
  a copy of \<^verbatim>\<open>total\<close> (\<^verbatim>\<open>JSON.parse(JSON.stringify(total))\<close>). They increase the six
  counters by those of \<^verbatim>\<open>file\<close>; every other field of the copy, the path among them,
  stays that of \<^verbatim>\<open>total\<close>.
\<close>

definition sumLcov_step :: "lcov_item \<Rightarrow> lcov_item \<Rightarrow> lcov_item" where
  "sumLcov_step total' f =
     total'\<lparr>lines := \<lparr>found = found (lines total') + found (lines f),
                      hit = hit (lines total') + hit (lines f)\<rparr>,
           functions' := \<lparr>found = found (functions' total') + found (functions' f),
                          hit = hit (functions' total') + hit (functions' f)\<rparr>,
           branches := \<lparr>found = found (branches total') + found (branches f),
                         hit = hit (branches total') + hit (branches f)\<rparr>\<rparr>"

text \<open>
  \<^verbatim>\<open>sumLcov(data, files)\<close>. The optional argument \<^verbatim>\<open>files\<close> is \<open>None\<close> when it is
  \<^verbatim>\<open>undefined\<close>; the result \<^verbatim>\<open>undefined\<close> is \<open>None\<close>. \<^verbatim>\<open>reduce\<close> is called without an
  initial value, so the accumulator starts as the first element and the callback runs on
  the remaining ones.
\<close>

definition sumLcov :: "lcov_item list \<Rightarrow> string set option \<Rightarrow> lcov_item option" where
  "sumLcov data files =
     (let data' = (case files of
                     None \<Rightarrow> data
                   | Some fs \<Rightarrow> filter (\<lambda>item. file' item \<in> fs) data)
      in case data' of
           [] \<Rightarrow> None
         | x # xs \<Rightarrow> Some (foldl sumLcov_step x xs))"

text \<open>The counter pairs of an aggregate: what remains when the path is left out.\<close>

definition counters :: "lcov_item \<Rightarrow> lcov_count \<times> lcov_count \<times> lcov_count" where
  "counters a = (lines a, functions' a, branches a)"

section \<open>Threshold evaluation\<close>

definition calculateLineCoverage :: "lcov_count \<Rightarrow> real" where
  "calculateLineCoverage ls =
     (if found ls = 0 then 0 else (real (hit ls) * 100) / real (found ls))"

definition isPassed :: "lcov_item option \<Rightarrow> real \<Rightarrow> bool" where
  "isPassed data minimumCoverage =
     (let coverage =
        (case data of
           None \<Rightarrow> 0
         | Some d \<Rightarrow>
             if found (lines d) = 0 then 0
             else real (hit (lines d)) * 100 / real (found (lines d)))
      in coverage \<ge> minimumCoverage)"

text \<open>
  \<^verbatim>\<open>checkAllIndividualFilesPassed(files, minimumCoverage)\<close>. The argument \<^verbatim>\<open>files\<close> is
  always an array here, so \<^verbatim>\<open>!files\<close> is false; \<^verbatim>\<open>!minimumCoverage\<close> holds of the
  number \<open>0\<close> only.
\<close>

definition checkAllIndividualFilesPassed :: "lcov_item list \<Rightarrow> real \<Rightarrow> bool" where
  "checkAllIndividualFilesPassed files minimumCoverage =
     (if length files = 0 \<or> minimumCoverage = 0 then True
      else list_all (\<lambda>f. calculateLineCoverage (lines f) \<ge> minimumCoverage) files)"

text \<open>
  The verdict \<^verbatim>\<open>bothPassed\<close> of \<^verbatim>\<open>run\<close>, as a function of the parsed records, the set
  of changed files and the two minimums.
\<close>

definition run_bothPassed :: "lcov_item list \<Rightarrow> string set \<Rightarrow> real \<Rightarrow> real \<Rightarrow> bool" where
  "run_bothPassed data changedFiles allFilesMinimumCoverage changedFilesMinimumCoverage =
     (let allFilesLcov = sumLcov data None;
          allFilesPassed = isPassed allFilesLcov allFilesMinimumCoverage;
          changedFilesLcov = sumLcov data (Some changedFiles);
          hasChangedFiles = (changedFilesLcov \<noteq> None);
          changedFilesPassed = isPassed changedFilesLcov changedFilesMinimumCoverage;
          changedFilesData = filter (\<lambda>item. file' item \<in> changedFiles) data;
          allIndividualFilesPassed =
            checkAllIndividualFilesPassed changedFilesData changedFilesMinimumCoverage
      in allFilesPassed \<and>
         (\<not> hasChangedFiles \<or> (changedFilesPassed \<and> allIndividualFilesPassed)))"

section \<open>The specification's aggregate evaluation\<close>

text \<open>
  The formula of the specification, in its words: \<^verbatim>\<open>passed(aggregate, minimum) =
  aggregate is data-present AND (aggregate.lines.found>0 ?
  aggregate.lines.hit*100/aggregate.lines.found : 0) >= minimum\<close>. It is compared with
  \<open>isPassed\<close> below.
\<close>

definition spec_passed :: "lcov_item option \<Rightarrow> real \<Rightarrow> bool" where
  "spec_passed aggregate minimum =
     (case aggregate of
        None \<Rightarrow> False
      | Some a \<Rightarrow>
          (if found (lines a) > 0 then real (hit (lines a)) * 100 / real (found (lines a))
           else 0) \<ge> minimum)"

section \<open>Rendering\<close>

text \<open>
  What the renderers take from outside \<^verbatim>\<open>src/index.js\<close>: \<^verbatim>\<open>markdownTable\<close> of the
  package \<^verbatim>\<open>markdown-table\<close>, \<^verbatim>\<open>path.basename\<close>, \<^verbatim>\<open>Number.prototype.toFixed\<close> with
  argument \<open>1\<close>, and the conversion of a number to a string in a template literal. They
  are parameters of the model.
\<close>

record js_lib =
  markdownTable :: "string list list \<Rightarrow> string"
  basename :: "string \<Rightarrow> string"
  toFixed1 :: "real \<Rightarrow> string"
  numToString :: "real \<Rightarrow> string"

definition renderLcovPercentage :: "js_lib \<Rightarrow> lcov_count \<Rightarrow> string" where
  "renderLcovPercentage lib lcov =
     (if found lcov = 0 then ''N/A''
      else (let percentage = toFixed1 lib (real (hit lcov) * 100 / real (found lcov))
            in numToString lib (real (hit lcov)) @ ''/'' @ numToString lib (real (found lcov))
               @ '' ('' @ percentage @ ''%)''))"

text \<open>The two glyphs are U+2705 and U+274C, written here as their UTF-8 bytes.\<close>

definition renderPassed :: "bool \<Rightarrow> string" where
  "renderPassed isPassed' =
     (if isPassed' then [CHR 0xE2, CHR 0x9C, CHR 0x85] else [CHR 0xE2, CHR 0x9D, CHR 0x8C])"

definition renderLcovOverall :: "js_lib \<Rightarrow> lcov_item option \<Rightarrow> real \<Rightarrow> bool \<Rightarrow> string" where
  "renderLcovOverall lib data minimumCoverage isPassed' =
     (case data of
        None \<Rightarrow> ''N/A\<newline>''
      | Some d \<Rightarrow>
          ''- Lines: '' @ renderLcovPercentage lib (lines d) @ '' '' @ renderPassed isPassed'
            @ '' (Minimum coverage is '' @ numToString lib minimumCoverage @ ''%)\<newline>''
          @ ''- Functions: '' @ renderLcovPercentage lib (functions' d) @ ''\<newline>''
          @ ''- Branches: '' @ renderLcovPercentage lib (branches d) @ ''\<newline>''
          @ ''\<newline>'')"

text \<open>
  The body of \<^verbatim>\<open>data.forEach\<close> in \<^verbatim>\<open>renderLcovFiles\<close>: the table row of one record.
  A minimum is truthy when it is not \<open>0\<close>.
\<close>

definition renderLcovFiles_row :: "js_lib \<Rightarrow> real \<Rightarrow> lcov_item \<Rightarrow> string list" where
  "renderLcovFiles_row lib minimumCoverage item =
     (let lineCoverage = calculateLineCoverage (lines item);
          passed = (if minimumCoverage \<noteq> 0 then lineCoverage \<ge> minimumCoverage else True)
      in [basename lib (file' item),
          renderLcovPercentage lib (lines item),
          renderLcovPercentage lib (functions' item),
          renderLcovPercentage lib (branches item),
          renderPassed passed])"

definition renderLcovFiles :: "js_lib \<Rightarrow> lcov_item list \<Rightarrow> string set option \<Rightarrow> real \<Rightarrow> string" where
  "renderLcovFiles lib data files minimumCoverage =
     (let data' = (case files of
                     None \<Rightarrow> data
                   | Some fs \<Rightarrow> filter (\<lambda>item. file' item \<in> fs) data)
      in if length data' = 0 then []
         else (let output = (if minimumCoverage \<noteq> 0
                             then ''#### Files (Minimum Coverage: ''
                                  @ numToString lib minimumCoverage @ ''%)\<newline>\<newline>''
                             else []);
                   table = [''File'', ''Lines'', ''Functions'', ''Branches'', ''Status'']
                           # map (renderLcovFiles_row lib minimumCoverage) data'
               in output @ markdownTable lib table @ ''\<newline>\<newline>''))"

section \<open>Aggregation over an object store\<close>

text \<open>
  JavaScript objects are shared by reference, so whether \<^verbatim>\<open>sumLcov\<close> changes a record
  of its input is a question about the store. Here the store is a list of records, a
  reference is an index into it, and the array \<^verbatim>\<open>data\<close> is a list of references.
  \<^verbatim>\<open>JSON.parse(JSON.stringify(total))\<close> allocates a new object that holds the contents of
  \<^verbatim>\<open>total\<close> (a deep copy: the counter pairs are copied too); the six \<^verbatim>\<open>+=\<close> then
  write to that new object. \<^verbatim>\<open>filter\<close> builds a new array of the same references and
  writes to no object. With a single element \<^verbatim>\<open>reduce\<close> returns it without calling
  the callback. A reference of \<^verbatim>\<open>data\<close> always points at an object of the store
  (\<open>r < length h\<close>); the properties below are stated for such arrays.
\<close>

type_synonym ref = nat
type_synonym heap = "lcov_item list"

definition alloc :: "heap \<Rightarrow> lcov_item \<Rightarrow> heap \<times> ref" where
  "alloc h v = (h @ [v], length h)"

fun sumLcov_reduce_h :: "heap \<Rightarrow> ref \<Rightarrow> ref list \<Rightarrow> heap \<times> ref" where
  "sumLcov_reduce_h h total' [] = (h, total')"
| "sumLcov_reduce_h h total' (f # fs) =
     (let (h1, newTotal) = alloc h (h ! total');
          h2 = h1[newTotal := sumLcov_step (h1 ! newTotal) (h1 ! f)]
      in sumLcov_reduce_h h2 newTotal fs)"

definition sumLcov_h :: "heap \<Rightarrow> ref list \<Rightarrow> string set option \<Rightarrow> heap \<times> ref option" where
  "sumLcov_h h data files =
     (let data' = (case files of
                     None \<Rightarrow> data
                   | Some fs \<Rightarrow> filter (\<lambda>item. file' (h ! item) \<in> fs) data)
      in case data' of
           [] \<Rightarrow> (h, None)
         | x # xs \<Rightarrow> (let (h', s) = sumLcov_reduce_h h x xs in (h', Some s)))"

section \<open>The sum of a list of records\<close>

text \<open>
  The aggregate as the specification describes it: for each of lines, functions and
  branches, the sum of \<^verbatim>\<open>found\<close> and the sum of \<^verbatim>\<open>hit\<close> over the records.
\<close>

definition lcov_totals :: "lcov_item list \<Rightarrow> lcov_count \<times> lcov_count \<times> lcov_count" where
  "lcov_totals xs =
     (\<lparr>found = sum_list (map (\<lambda>f. found (lines f)) xs),
       hit = sum_list (map (\<lambda>f. hit (lines f)) xs)\<rparr>,
      \<lparr>found = sum_list (map (\<lambda>f. found (functions' f)) xs),
       hit = sum_list (map (\<lambda>f. hit (functions' f)) xs)\<rparr>,
      \<lparr>found = sum_list (map (\<lambda>f. found (branches f)) xs),
       hit = sum_list (map (\<lambda>f. hit (branches f)) xs)\<rparr>)"

section \<open>Example records\<close>

text \<open>
  A record with path \<open>p\<close> and \<open>h\<close> of \<open>f\<close> lines hit; its function and branch
  counters are \<open>1\<close> of \<open>2\<close> and \<open>3\<close> of \<open>4\<close>. Used in the examples below, together
  with stand-ins for the library functions.
\<close>

abbreviation example_item :: "string \<Rightarrow> nat \<Rightarrow> nat \<Rightarrow> lcov_item" where
  "example_item p f h \<equiv>
     \<lparr>file' = p, lines = \<lparr>found = f, hit = h\<rparr>,
      functions' = \<lparr>found = 2, hit = 1\<rparr>, branches = \<lparr>found = 4, hit = 3\<rparr>\<rparr>"

abbreviation example_lib :: js_lib where
  "example_lib \<equiv>
     \<lparr>markdownTable = (\<lambda>t. concat (map concat t)), basename = (\<lambda>p. p),
      toFixed1 = (\<lambda>x. ''x''), numToString = (\<lambda>x. ''n'')\<rparr>"

section \<open>Basic facts\<close>

lemma calculateLineCoverage_nonneg: "0 \<le> calculateLineCoverage ls"
  by (simp add: calculateLineCoverage_def)

lemma isPassed_Some: "isPassed (Some d) m \<longleftrightarrow> m \<le> calculateLineCoverage (lines d)"
  by (simp add: isPassed_def calculateLineCoverage_def)

lemma isPassed_None: "isPassed None m \<longleftrightarrow> m \<le> 0"
  by (simp add: isPassed_def)

lemma checkAll_iff:
  "checkAllIndividualFilesPassed files m \<longleftrightarrow>
     (\<forall>f \<in> set files. calculateLineCoverage (lines f) \<ge> m) \<or> m = 0"
  by (auto simp: checkAllIndividualFilesPassed_def list_all_iff)

lemma sumLcov_None_iff:
  "sumLcov data files = None \<longleftrightarrow>
     (case files of None \<Rightarrow> data | Some fs \<Rightarrow> filter (\<lambda>item. file' item \<in> fs) data) = []"
  by (simp add: sumLcov_def Let_def split: list.splits option.splits)

lemma row_status:
  "renderLcovFiles_row lib m r ! 4 =
     renderPassed (m = 0 \<or> m \<le> calculateLineCoverage (lines r))"
  by (auto simp: renderLcovFiles_row_def Let_def)

lemma row_lines_cell:
  "renderLcovFiles_row lib m r ! 1 = renderLcovPercentage lib (lines r)"
  by (simp add: renderLcovFiles_row_def Let_def)

lemma renderPassed_distinct: "renderPassed True \<noteq> renderPassed False"
  by (simp add: renderPassed_def)

lemma coverage_over_100:
  assumes "found c < hit c" "0 < found c"
  shows "100 < calculateLineCoverage c"
proof -
  have "real (found c) < real (hit c)" using assms by simp
  then have "100 * real (found c) < real (hit c) * 100" by simp
  then have "100 < real (hit c) * 100 / real (found c)"
    using assms(2) by (simp add: pos_less_divide_eq)
  then show ?thesis using assms(2) by (simp add: calculateLineCoverage_def)
qed

section \<open>The verdict of a run\<close>

text \<open>
  C1. The verdict of a run is true exactly when the all-files aggregate passes the
  all-files minimum and either there is no changed-file coverage data at all, or the
  changed-files aggregate passes the changed-files minimum and the line coverage of every
  record of a changed file is at least the changed-files minimum. There is no
  changed-file data exactly when no record's path is in the set of changed files, and
  then the verdict is that of the all-files aggregate.
\<close>

theorem run_bothPassed_iff:
  "(run_bothPassed data changedFiles amin cmin \<longleftrightarrow>
     isPassed (sumLcov data None) amin \<and>
     (sumLcov data (Some changedFiles) = None \<or>
      (isPassed (sumLcov data (Some changedFiles)) cmin \<and>
       (\<forall>f \<in> set data. file' f \<in> changedFiles \<longrightarrow>
          calculateLineCoverage (lines f) \<ge> cmin)))) \<and>
   (sumLcov data (Some changedFiles) = None \<longleftrightarrow>
      (\<forall>f \<in> set data. file' f \<notin> changedFiles)) \<and>
   (sumLcov data (Some changedFiles) = None \<longrightarrow>
      run_bothPassed data changedFiles amin cmin = isPassed (sumLcov data None) amin)"
proof -
  have "checkAllIndividualFilesPassed (filter (\<lambda>item. file' item \<in> changedFiles) data) cmin
        \<longleftrightarrow> (\<forall>f \<in> set data. file' f \<in> changedFiles \<longrightarrow>
               calculateLineCoverage (lines f) \<ge> cmin)"
    using calculateLineCoverage_nonneg by (auto simp: checkAll_iff)
  then have v: "run_bothPassed data changedFiles amin cmin \<longleftrightarrow>
     isPassed (sumLcov data None) amin \<and>
     (sumLcov data (Some changedFiles) = None \<or>
      (isPassed (sumLcov data (Some changedFiles)) cmin \<and>
       (\<forall>f \<in> set data. file' f \<in> changedFiles \<longrightarrow>
          calculateLineCoverage (lines f) \<ge> cmin)))"
    by (auto simp: run_bothPassed_def Let_def)
  have n: "sumLcov data (Some changedFiles) = None \<longleftrightarrow>
      (\<forall>f \<in> set data. file' f \<notin> changedFiles)"
    by (simp add: sumLcov_None_iff filter_empty_conv)
  have a: "sumLcov data (Some changedFiles) = None \<longrightarrow>
      run_bothPassed data changedFiles amin cmin = isPassed (sumLcov data None) amin"
    by (simp add: run_bothPassed_def Let_def)
  from v n a show ?thesis by blast
qed

theorem run_bothPassed_iff_witness:
  "run_bothPassed
     [example_item ''/w/a.js'' 100 80, example_item ''/w/b.js'' 100 50] {''/w/a.js''} 60 75 \<and>
   \<not> run_bothPassed
     [example_item ''/w/a.js'' 100 80, example_item ''/w/b.js'' 100 50]
     {''/w/a.js'', ''/w/b.js''} 60 60 \<and>
   run_bothPassed [example_item ''/w/a.js'' 100 80] {} 60 75"
  using run_bothPassed_iff
      [of "[example_item ''/w/a.js'' 100 80, example_item ''/w/b.js'' 100 50]"
          "{''/w/a.js''}" 60 75]
    run_bothPassed_iff
      [of "[example_item ''/w/a.js'' 100 80, example_item ''/w/b.js'' 100 50]"
          "{''/w/a.js'', ''/w/b.js''}" 60 60]
    run_bothPassed_iff [of "[example_item ''/w/a.js'' 100 80]" "{}" 60 75]
  by (simp add: sumLcov_def sumLcov_step_def isPassed_def calculateLineCoverage_def)

section \<open>Evaluation of an aggregate\<close>

text \<open>
  C2, as the specification states it, fails for an absent aggregate and the minimum
  \<open>0\<close>: \<^verbatim>\<open>isPassed(undefined, 0)\<close> is true, while the formula "data-present AND
  coverage >= minimum" is false there.
\<close>

theorem isPassed_absent_counterexample: "isPassed None 0 \<and> \<not> spec_passed None 0"
  by (simp add: isPassed_def spec_passed_def)

text \<open>
  C2, amended. \<^verbatim>\<open>isPassed\<close> returns true exactly when the coverage is at least the
  minimum, where the coverage is \<open>hit * 100 / found\<close>, or \<open>0\<close> when \<open>found\<close> is \<open>0\<close> or
  the aggregate is absent. So an absent aggregate passes exactly the minimums that are
  at most \<open>0\<close>, and \<^verbatim>\<open>isPassed\<close> agrees with the specification's formula whenever the
  aggregate is present or the minimum is positive.
\<close>

theorem isPassed_iff:
  "(isPassed data m \<longleftrightarrow>
      (case data of
         None \<Rightarrow> 0
       | Some d \<Rightarrow> if found (lines d) = 0 then 0
                   else real (hit (lines d)) * 100 / real (found (lines d))) \<ge> m) \<and>
   (isPassed None m \<longleftrightarrow> m \<le> 0) \<and>
   (data \<noteq> None \<or> 0 < m \<longrightarrow> isPassed data m = spec_passed data m)"
  by (auto simp: isPassed_def spec_passed_def Let_def split: option.splits)

theorem isPassed_iff_witness:
  "isPassed (Some (example_item ''/w/a.js'' 100 80)) 75 \<and>
   spec_passed (Some (example_item ''/w/a.js'' 100 80)) 75 \<and>
   \<not> isPassed (Some (example_item ''/w/a.js'' 100 50)) 75 \<and>
   \<not> isPassed None 5 \<and> \<not> spec_passed None 5 \<and> isPassed None 0"
  using isPassed_iff [of "Some (example_item ''/w/a.js'' 100 80)" 75]
    isPassed_iff [of "Some (example_item ''/w/a.js'' 100 50)" 75]
    isPassed_iff [of None 5] isPassed_iff [of None 0]
  by auto

section \<open>Records without lines\<close>

text \<open>
  C3. For a record or aggregate with \<open>lines.found = 0\<close>: the line coverage is \<open>0\<close>, the
  table cell of its lines is the string \<open>N/A\<close>, and for every minimum greater than \<open>0\<close>
  it does not pass \<^verbatim>\<open>isPassed\<close>, every collection that contains it fails
  \<^verbatim>\<open>checkAllIndividualFilesPassed\<close>, and its table row carries the failure glyph.
\<close>

theorem zero_found:
  "found (lines r) = 0 \<longrightarrow>
     calculateLineCoverage (lines r) = 0 \<and>
     renderLcovPercentage lib (lines r) = ''N/A'' \<and>
     renderLcovFiles_row lib m r ! 1 = ''N/A'' \<and>
     (0 < m \<longrightarrow>
        \<not> isPassed (Some r) m \<and>
        (r \<in> set files \<longrightarrow> \<not> checkAllIndividualFilesPassed files m) \<and>
        renderLcovFiles_row lib m r ! 4 = renderPassed False)"
proof (intro impI)
  assume z: "found (lines r) = 0"
  then have c: "calculateLineCoverage (lines r) = 0"
    by (simp add: calculateLineCoverage_def)
  have n: "renderLcovPercentage lib (lines r) = ''N/A''"
    using z by (simp add: renderLcovPercentage_def)
  have l: "renderLcovFiles_row lib m r ! 1 = ''N/A''"
    by (simp only: row_lines_cell n)
  have p: "\<not> isPassed (Some r) m" "renderLcovFiles_row lib m r ! 4 = renderPassed False"
    "r \<in> set files \<longrightarrow> \<not> checkAllIndividualFilesPassed files m" if "0 < m"
    using that c by (auto simp: isPassed_Some row_status checkAll_iff intro!: bexI [of _ r])
  show "calculateLineCoverage (lines r) = 0 \<and>
     renderLcovPercentage lib (lines r) = ''N/A'' \<and>
     renderLcovFiles_row lib m r ! 1 = ''N/A'' \<and>
     (0 < m \<longrightarrow>
        \<not> isPassed (Some r) m \<and>
        (r \<in> set files \<longrightarrow> \<not> checkAllIndividualFilesPassed files m) \<and>
        renderLcovFiles_row lib m r ! 4 = renderPassed False)"
    using c n l p by blast
qed

theorem zero_found_witness:
  "calculateLineCoverage (lines (example_item ''/w/e.js'' 0 0)) = 0 \<and>
   renderLcovPercentage example_lib (lines (example_item ''/w/e.js'' 0 0)) = ''N/A'' \<and>
   \<not> isPassed (Some (example_item ''/w/e.js'' 0 0)) 75 \<and>
   \<not> checkAllIndividualFilesPassed
       [example_item ''/w/a.js'' 100 80, example_item ''/w/e.js'' 0 0] 75 \<and>
   renderLcovFiles_row example_lib 75 (example_item ''/w/e.js'' 0 0) ! 4 = renderPassed False"
  using zero_found [of "example_item ''/w/e.js'' 0 0" example_lib 75
      "[example_item ''/w/a.js'' 100 80, example_item ''/w/e.js'' 0 0]"]
  by simp

section \<open>Individual files\<close>

text \<open>
  C6. For an empty collection, or a minimum of \<open>0\<close>, \<^verbatim>\<open>checkAllIndividualFilesPassed\<close>
  is true whatever the records are; otherwise it is true exactly when the line coverage of
  every record (\<open>0\<close> when \<open>found = 0\<close>) is at least the minimum.
\<close>

theorem checkAllIndividualFilesPassed_spec:
  "(files = [] \<or> m = 0 \<longrightarrow> checkAllIndividualFilesPassed files m) \<and>
   (files \<noteq> [] \<and> m \<noteq> 0 \<longrightarrow>
      checkAllIndividualFilesPassed files m =
        (\<forall>f \<in> set files.
           (if found (lines f) = 0 then 0
            else real (hit (lines f)) * 100 / real (found (lines f))) \<ge> m))"
  by (simp add: checkAllIndividualFilesPassed_def calculateLineCoverage_def list_all_iff)

theorem checkAllIndividualFilesPassed_spec_witness:
  "checkAllIndividualFilesPassed [] 75 \<and>
   checkAllIndividualFilesPassed [example_item ''/w/a.js'' 100 50] 0 \<and>
   checkAllIndividualFilesPassed
     [example_item ''/w/a.js'' 100 80, example_item ''/w/b.js'' 4 3] 75 \<and>
   \<not> checkAllIndividualFilesPassed
     [example_item ''/w/a.js'' 100 80, example_item ''/w/b.js'' 100 50] 75 \<and>
   \<not> checkAllIndividualFilesPassed [example_item ''/w/a.js'' 0 0] 75"
  using checkAllIndividualFilesPassed_spec [of "[]" 75]
    checkAllIndividualFilesPassed_spec [of "[example_item ''/w/a.js'' 100 50]" 0]
    checkAllIndividualFilesPassed_spec
      [of "[example_item ''/w/a.js'' 100 80, example_item ''/w/b.js'' 4 3]" 75]
    checkAllIndividualFilesPassed_spec
      [of "[example_item ''/w/a.js'' 100 80, example_item ''/w/b.js'' 100 50]" 75]
    checkAllIndividualFilesPassed_spec [of "[example_item ''/w/a.js'' 0 0]" 75]
  by simp

section \<open>Rendering of the file table\<close>

text \<open>
  C7. When no record is left after filtering, \<^verbatim>\<open>renderLcovFiles\<close> returns the empty
  string. When some record is left, the result is the table followed by two newlines,
  preceded by the heading line that names the minimum exactly when the minimum is not
  \<open>0\<close>.
\<close>

theorem renderLcovFiles_spec:
  "(let data' = (case files of
                   None \<Rightarrow> data
                 | Some fs \<Rightarrow> filter (\<lambda>item. file' item \<in> fs) data);
        table = [''File'', ''Lines'', ''Functions'', ''Branches'', ''Status'']
                # map (renderLcovFiles_row lib m) data'
    in (data' = [] \<longrightarrow> renderLcovFiles lib data files m = []) \<and>
       (data' \<noteq> [] \<and> m \<noteq> 0 \<longrightarrow>
          renderLcovFiles lib data files m =
            ''#### Files (Minimum Coverage: '' @ numToString lib m @ ''%)\<newline>\<newline>''
            @ markdownTable lib table @ ''\<newline>\<newline>'') \<and>
       (data' \<noteq> [] \<and> m = 0 \<longrightarrow>
          renderLcovFiles lib data files m = markdownTable lib table @ ''\<newline>\<newline>''))"
  by (simp add: renderLcovFiles_def Let_def)

theorem renderLcovFiles_spec_witness:
  "renderLcovFiles example_lib [example_item ''/w/a.js'' 0 0] (Some {''/w/z.js''}) 75 = [] \<and>
   renderLcovFiles example_lib [] None 75 = [] \<and>
   renderLcovFiles example_lib [example_item ''/w/a.js'' 0 0] (Some {''/w/a.js''}) 75 =
     ''#### Files (Minimum Coverage: n%)\<newline>\<newline>''
     @ ''FileLinesFunctionsBranchesStatus''
     @ ''/w/a.jsN/An/n (x%)n/n (x%)'' @ renderPassed False @ ''\<newline>\<newline>'' \<and>
   renderLcovFiles example_lib [example_item ''/w/a.js'' 0 0] None 0 =
     ''FileLinesFunctionsBranchesStatus''
     @ ''/w/a.jsN/An/n (x%)n/n (x%)'' @ renderPassed True @ ''\<newline>\<newline>''"
  using renderLcovFiles_spec
      [where files = "Some {''/w/z.js''}" and data = "[example_item ''/w/a.js'' 0 0]"
         and lib = example_lib and m = 75]
    renderLcovFiles_spec [where files = None and data = "[]" and lib = example_lib and m = 75]
    renderLcovFiles_spec
      [where files = "Some {''/w/a.js''}" and data = "[example_item ''/w/a.js'' 0 0]"
         and lib = example_lib and m = 75]
    renderLcovFiles_spec
      [where files = None and data = "[example_item ''/w/a.js'' 0 0]"
         and lib = example_lib and m = 0]
  by (simp add: Let_def renderLcovFiles_row_def renderLcovPercentage_def
      calculateLineCoverage_def)

section \<open>The threshold boundary\<close>

text \<open>
  C8. A line coverage equal to the minimum passes: the comparison is \<open>\<ge>\<close>. In
  particular a record or aggregate with \<open>hit = 75\<close> and \<open>found = 100\<close> has coverage \<open>75\<close>
  and passes the minimum \<open>75\<close> in \<^verbatim>\<open>isPassed\<close>, in \<^verbatim>\<open>checkAllIndividualFilesPassed\<close>
  and in the status cell of its table row.
\<close>

theorem threshold_boundary:
  "(calculateLineCoverage (lines r) = m \<longrightarrow>
      isPassed (Some r) m \<and> checkAllIndividualFilesPassed [r] m \<and>
      renderLcovFiles_row lib m r ! 4 = renderPassed True) \<and>
   (hit (lines r) = 75 \<and> found (lines r) = 100 \<longrightarrow>
      calculateLineCoverage (lines r) = 75 \<and>
      isPassed (Some r) 75 \<and> checkAllIndividualFilesPassed [r] 75 \<and>
      renderLcovFiles_row lib 75 r ! 4 = renderPassed True)"
  by (auto simp: isPassed_Some checkAll_iff row_status calculateLineCoverage_def)

theorem threshold_boundary_witness:
  "calculateLineCoverage (lines (example_item ''/w/a.js'' 100 75)) = 75 \<and>
   isPassed (Some (example_item ''/w/a.js'' 100 75)) 75 \<and>
   checkAllIndividualFilesPassed [example_item ''/w/a.js'' 100 75] 75 \<and>
   renderLcovFiles_row example_lib 75 (example_item ''/w/a.js'' 100 75) ! 4 =
     renderPassed True"
  using threshold_boundary [of "example_item ''/w/a.js'' 100 75" 75 example_lib]
  by simp

section \<open>Records that match no changed file\<close>

text \<open>
  C10. The changed-files aggregate is present exactly when some record's path is in the
  set of changed files. When the set of changed files is not empty but holds the path of
  no record, the changed-files aggregate is absent (it renders as \<open>N/A\<close>) and the
  verdict of the run is that of the all-files aggregate alone, whatever the
  changed-files minimum is.
\<close>

theorem changed_files_without_records:
  "(sumLcov data (Some changedFiles) \<noteq> None \<longleftrightarrow>
      (\<exists>r \<in> set data. file' r \<in> changedFiles)) \<and>
   (changedFiles \<noteq> {} \<and> (\<forall>r \<in> set data. file' r \<notin> changedFiles) \<longrightarrow>
      sumLcov data (Some changedFiles) = None \<and>
      renderLcovOverall lib (sumLcov data (Some changedFiles)) cmin
        (isPassed (sumLcov data (Some changedFiles)) cmin) = ''N/A\<newline>'' \<and>
      run_bothPassed data changedFiles amin cmin = isPassed (sumLcov data None) amin)"
proof -
  have p: "sumLcov data (Some changedFiles) \<noteq> None \<longleftrightarrow>
      (\<exists>r \<in> set data. file' r \<in> changedFiles)"
    by (auto simp: sumLcov_None_iff filter_empty_conv)
  have "sumLcov data (Some changedFiles) = None \<Longrightarrow>
      renderLcovOverall lib (sumLcov data (Some changedFiles)) cmin
        (isPassed (sumLcov data (Some changedFiles)) cmin) = ''N/A\<newline>'' \<and>
      run_bothPassed data changedFiles amin cmin = isPassed (sumLcov data None) amin"
    by (simp add: run_bothPassed_def Let_def renderLcovOverall_def)
  with p show ?thesis by blast
qed

theorem changed_files_without_records_witness:
  "sumLcov [example_item ''/w/a.js'' 100 80] (Some {''/w/z.js''}) = None \<and>
   \<not> isPassed (sumLcov [example_item ''/w/a.js'' 100 80] (Some {''/w/z.js''})) 90 \<and>
   run_bothPassed [example_item ''/w/a.js'' 100 80] {''/w/z.js''} 75 90"
proof -
  have h: "{''/w/z.js''} \<noteq> {} \<and>
           (\<forall>r \<in> set [example_item ''/w/a.js'' 100 80]. file' r \<notin> {''/w/z.js''})"
    by simp
  have a: "isPassed (sumLcov [example_item ''/w/a.js'' 100 80] None) 75"
    by (simp add: sumLcov_def isPassed_def)
  from h a changed_files_without_records
      [of "[example_item ''/w/a.js'' 100 80]" "{''/w/z.js''}" example_lib 90 75]
  show ?thesis by (simp add: isPassed_None)
qed

section \<open>Records with more hits than lines\<close>

text \<open>
  C5, as the specification states it, fails: for a record with \<open>hit = 150\<close> and
  \<open>found = 100\<close> the aggregation returns the record, the line coverage is \<open>150\<close>, and
  both pass evaluations return true for the minimum \<open>100\<close>. No error value exists in
  these functions: the source has no check of its records.
\<close>

theorem malformed_record_counterexample:
  "sumLcov [example_item ''/w/a.js'' 100 150] None = Some (example_item ''/w/a.js'' 100 150) \<and>
   calculateLineCoverage (lines (example_item ''/w/a.js'' 100 150)) = 150 \<and>
   isPassed (sumLcov [example_item ''/w/a.js'' 100 150] None) 100 \<and>
   checkAllIndividualFilesPassed [example_item ''/w/a.js'' 100 150] 100"
  by (simp add: sumLcov_def calculateLineCoverage_def isPassed_def
      checkAllIndividualFilesPassed_def)

text \<open>
  C5, amended. The engine does not check its records. For a record with
  \<open>0 < found < hit\<close> it returns results as for any other record: the aggregate of the
  record alone is the record, its line coverage is \<open>hit * 100 / found\<close>, which is greater
  than \<open>100\<close>, and it passes every minimum up to \<open>100\<close>.
\<close>

theorem malformed_record_accepted:
  "found (lines r) < hit (lines r) \<and> 0 < found (lines r) \<longrightarrow>
     sumLcov [r] None = Some r \<and>
     calculateLineCoverage (lines r) = real (hit (lines r)) * 100 / real (found (lines r)) \<and>
     100 < calculateLineCoverage (lines r) \<and>
     (m \<le> 100 \<longrightarrow> isPassed (sumLcov [r] None) m \<and> checkAllIndividualFilesPassed [r] m)"
proof (intro impI)
  assume a: "found (lines r) < hit (lines r) \<and> 0 < found (lines r)"
  have s: "sumLcov [r] None = Some r" by (simp add: sumLcov_def)
  have g: "100 < calculateLineCoverage (lines r)" using a by (simp add: coverage_over_100)
  have e: "calculateLineCoverage (lines r) = real (hit (lines r)) * 100 / real (found (lines r))"
    using a by (simp add: calculateLineCoverage_def)
  show "sumLcov [r] None = Some r \<and>
     calculateLineCoverage (lines r) = real (hit (lines r)) * 100 / real (found (lines r)) \<and>
     100 < calculateLineCoverage (lines r) \<and>
     (m \<le> 100 \<longrightarrow> isPassed (sumLcov [r] None) m \<and> checkAllIndividualFilesPassed [r] m)"
    using s g e by (simp add: isPassed_Some checkAll_iff)
qed

theorem malformed_record_accepted_witness:
  "sumLcov [example_item ''/w/a.js'' 100 150] None = Some (example_item ''/w/a.js'' 100 150) \<and>
   100 < calculateLineCoverage (lines (example_item ''/w/a.js'' 100 150)) \<and>
   isPassed (sumLcov [example_item ''/w/a.js'' 100 150] None) 90 \<and>
   checkAllIndividualFilesPassed [example_item ''/w/a.js'' 100 150] 90"
  using malformed_record_accepted [of "example_item ''/w/a.js'' 100 150" 90]
  by auto

section \<open>Aggregation and the order of the records\<close>

lemma foldl_step_counters: "counters (foldl sumLcov_step x xs) = lcov_totals (x # xs)"
proof (induction xs arbitrary: x)
  case Nil
  show ?case by (simp add: counters_def lcov_totals_def)
next
  case (Cons y ys)
  have "lcov_totals (sumLcov_step x y # ys) = lcov_totals (x # y # ys)"
    by (simp add: lcov_totals_def sumLcov_step_def add.assoc)
  with Cons.IH [of "sumLcov_step x y"] show ?case by simp
qed

lemma sumLcov_counters:
  "map_option counters (sumLcov data files) =
     (let data' = (case files of
                     None \<Rightarrow> data
                   | Some fs \<Rightarrow> filter (\<lambda>item. file' item \<in> fs) data)
      in if data' = [] then None else Some (lcov_totals data'))"
  by (simp add: sumLcov_def Let_def foldl_step_counters split: list.splits)

lemma sum_list_map_mset:
  fixes g :: "'a \<Rightarrow> nat"
  assumes "mset xs = mset ys"
  shows "sum_list (map g xs) = sum_list (map g ys)"
proof -
  have "sum_list (map g xs) = sum_mset (image_mset g (mset xs))"
    by (simp add: sum_mset_sum_list [symmetric])
  also have "\<dots> = sum_mset (image_mset g (mset ys))" using assms by simp
  also have "\<dots> = sum_list (map g ys)" by (simp add: sum_mset_sum_list [symmetric])
  finally show ?thesis .
qed

lemma lcov_totals_mset: "mset xs = mset ys \<Longrightarrow> lcov_totals xs = lcov_totals ys"
  unfolding lcov_totals_def
  by (simp add: sum_list_map_mset [of xs ys])

text \<open>
  C4. Two lists of records that are permutations of each other have the same aggregate
  counters, with a filter set and without one: both aggregates are absent, or both are
  present with equal \<open>found\<close> and \<open>hit\<close> for lines, functions and branches.
\<close>

theorem sumLcov_permutation:
  "mset data = mset data2 \<longrightarrow>
     map_option counters (sumLcov data files) = map_option counters (sumLcov data2 files)"
proof
  assume m: "mset data = mset data2"
  define sel :: "lcov_item list \<Rightarrow> lcov_item list"
    where "sel = (\<lambda>d. case files of
                         None \<Rightarrow> d
                       | Some fs \<Rightarrow> filter (\<lambda>item. file' item \<in> fs) d)"
  have ms: "mset (sel data) = mset (sel data2)"
    using m by (simp add: sel_def split: option.splits)
  then have e: "sel data = [] \<longleftrightarrow> sel data2 = []"
    by (metis mset_zero_iff)
  have t: "lcov_totals (sel data) = lcov_totals (sel data2)"
    using ms by (rule lcov_totals_mset)
  show "map_option counters (sumLcov data files) = map_option counters (sumLcov data2 files)"
    using e t by (simp add: sumLcov_counters sel_def Let_def)
qed

theorem sumLcov_permutation_witness:
  "map_option counters
     (sumLcov [example_item ''/w/a.js'' 100 80, example_item ''/w/b.js'' 10 5,
               example_item ''/w/c.js'' 7 7] (Some {''/w/a.js'', ''/w/c.js''}))
   = Some (\<lparr>found = 107, hit = 87\<rparr>, \<lparr>found = 4, hit = 2\<rparr>, \<lparr>found = 8, hit = 6\<rparr>)"
proof -
  have p: "mset [example_item ''/w/a.js'' 100 80, example_item ''/w/b.js'' 10 5,
                 example_item ''/w/c.js'' 7 7]
         = mset [example_item ''/w/c.js'' 7 7, example_item ''/w/b.js'' 10 5,
                 example_item ''/w/a.js'' 100 80]"
    by simp
  have e: "map_option counters
     (sumLcov [example_item ''/w/c.js'' 7 7, example_item ''/w/b.js'' 10 5,
               example_item ''/w/a.js'' 100 80] (Some {''/w/a.js'', ''/w/c.js''}))
   = Some (\<lparr>found = 107, hit = 87\<rparr>, \<lparr>found = 4, hit = 2\<rparr>, \<lparr>found = 8, hit = 6\<rparr>)"
    by (simp add: sumLcov_def sumLcov_step_def counters_def)
  from p e sumLcov_permutation
      [of "[example_item ''/w/a.js'' 100 80, example_item ''/w/b.js'' 10 5,
            example_item ''/w/c.js'' 7 7]"
          "[example_item ''/w/c.js'' 7 7, example_item ''/w/b.js'' 10 5,
            example_item ''/w/a.js'' 100 80]"
          "Some {''/w/a.js'', ''/w/c.js''}"]
  show ?thesis by simp
qed

section \<open>Aggregation and the input records\<close>

lemma sumLcov_reduce_h_frame:
  "t < length h \<Longrightarrow> \<forall>r \<in> set fs. r < length h \<Longrightarrow> sumLcov_reduce_h h t fs = (h2, s) \<Longrightarrow>
     length h \<le> length h2 \<and> take (length h) h2 = h \<and> s < length h2 \<and>
     (fs = [] \<longrightarrow> s = t \<and> h2 = h) \<and> (fs \<noteq> [] \<longrightarrow> length h \<le> s) \<and>
     h2 ! s = foldl sumLcov_step (h ! t) (map (\<lambda>r. h ! r) fs)"
proof (induction fs arbitrary: h t)
  case Nil
  then show ?case by simp
next
  case (Cons f fs)
  define k where "k = h @ [sumLcov_step (h ! t) (h ! f)]"
  have f: "f < length h" and fs: "\<forall>r \<in> set fs. r < length h"
    using Cons.prems(2) by simp_all
  have step: "sumLcov_reduce_h h t (f # fs) = sumLcov_reduce_h k (length h) fs"
    using f by (simp add: alloc_def k_def nth_append)
  have r: "sumLcov_reduce_h k (length h) fs = (h2, s)"
    using step Cons.prems(3) by simp
  have lk: "length k = Suc (length h)" by (simp add: k_def)
  have ih: "length k \<le> length h2 \<and> take (length k) h2 = k \<and> s < length h2 \<and>
     (fs = [] \<longrightarrow> s = length h \<and> h2 = k) \<and> (fs \<noteq> [] \<longrightarrow> length k \<le> s) \<and>
     h2 ! s = foldl sumLcov_step (k ! length h) (map (\<lambda>r. k ! r) fs)"
  proof -
    have "length h < length k" by (simp add: lk)
    moreover have "\<forall>r \<in> set fs. r < length k" using fs lk by auto
    ultimately show ?thesis using Cons.IH [of "length h" k] r lk by simp
  qed
  have tk: "take (length h) h2 = h"
  proof -
    have "take (length h) h2 = take (length h) (take (length k) h2)"
      by (simp add: lk min_def)
    also have "\<dots> = take (length h) k" using ih by simp
    also have "\<dots> = h" by (simp add: k_def)
    finally show ?thesis .
  qed
  have mk: "map (\<lambda>r. k ! r) fs = map (\<lambda>r. h ! r) fs"
    using fs by (simp add: k_def nth_append)
  have kl: "k ! length h = sumLcov_step (h ! t) (h ! f)" by (simp add: k_def)
  have v: "h2 ! s = foldl sumLcov_step (h ! t) (map (\<lambda>r. h ! r) (f # fs))"
    using ih by (simp only: mk kl foldl_Cons list.map)
  show ?case using ih tk v lk by auto
qed

text \<open>
  C9, as the specification states it, fails where it says that the aggregate is a newly
  derived value: when exactly one record is summed, \<^verbatim>\<open>reduce\<close> returns that record.
  Here the store holds one record, at reference \<open>0\<close>; the aggregate is reference \<open>0\<close>
  and no object has been allocated.
\<close>

theorem sumLcov_h_alias_counterexample:
  "sumLcov_h [example_item ''/w/a.js'' 100 80] [0] None =
     ([example_item ''/w/a.js'' 100 80], Some 0)"
  by (simp add: sumLcov_h_def)

text \<open>
  C9, amended. Aggregation, with or without filtering by a set of paths, changes no
  record of its input: every object of the store before the call is in the store after
  it, at the same reference and with the same path and counters. The aggregate holds the
  sums that \<open>sumLcov\<close> computes from the contents of the records. It is a newly
  allocated object when two or more records are summed; when exactly one record is
  summed it is that record itself, unchanged, and when none is, there is no aggregate.
\<close>

theorem sumLcov_h_frame:
  "(\<forall>r \<in> set data. r < length h) \<and> sumLcov_h h data files = (h2, res) \<longrightarrow>
     length h \<le> length h2 \<and> take (length h) h2 = h \<and>
     map_option (\<lambda>s. h2 ! s) res = sumLcov (map (\<lambda>r. h ! r) data) files \<and>
     (let data' = (case files of
                     None \<Rightarrow> data
                   | Some fs \<Rightarrow> filter (\<lambda>item. file' (h ! item) \<in> fs) data)
      in case data' of
           [] \<Rightarrow> res = None \<and> h2 = h
         | [x] \<Rightarrow> res = Some x \<and> h2 = h
         | x # y # ys \<Rightarrow> (\<exists>s. res = Some s \<and> length h \<le> s \<and> s < length h2))"
proof
  assume a: "(\<forall>r \<in> set data. r < length h) \<and> sumLcov_h h data files = (h2, res)"
  define data' where "data' = (case files of
                     None \<Rightarrow> data
                   | Some fs \<Rightarrow> filter (\<lambda>item. file' (h ! item) \<in> fs) data)"
  have wf: "\<forall>r \<in> set data'. r < length h"
    using a by (auto simp: data'_def split: option.splits)
  have md: "(case files of
               None \<Rightarrow> map (\<lambda>r. h ! r) data
             | Some fs \<Rightarrow> filter (\<lambda>item. file' item \<in> fs) (map (\<lambda>r. h ! r) data))
            = map (\<lambda>r. h ! r) data'"
    by (simp add: data'_def filter_map o_def split: option.splits)
  have sl: "sumLcov (map (\<lambda>r. h ! r) data) files =
     (case data' of
        [] \<Rightarrow> None
      | x # xs \<Rightarrow> Some (foldl sumLcov_step (h ! x) (map (\<lambda>r. h ! r) xs)))"
    unfolding sumLcov_def Let_def md by (simp split: list.splits)
  have sh: "sumLcov_h h data files =
     (case data' of
        [] \<Rightarrow> (h, None)
      | x # xs \<Rightarrow> (let (h', s) = sumLcov_reduce_h h x xs in (h', Some s)))"
    by (simp add: sumLcov_h_def data'_def Let_def)
  have goal: "length h \<le> length h2 \<and> take (length h) h2 = h \<and>
     map_option (\<lambda>s. h2 ! s) res = sumLcov (map (\<lambda>r. h ! r) data) files \<and>
     (case data' of
        [] \<Rightarrow> res = None \<and> h2 = h
      | [x] \<Rightarrow> res = Some x \<and> h2 = h
      | x # y # ys \<Rightarrow> (\<exists>s. res = Some s \<and> length h \<le> s \<and> s < length h2))"
  proof (cases data')
    case Nil
    then show ?thesis using a sh sl by simp
  next
    case (Cons x xs)
    obtain k s where r: "sumLcov_reduce_h h x xs = (k, s)"
      by (cases "sumLcov_reduce_h h x xs")
    have e: "h2 = k" "res = Some s" using a sh Cons r by simp_all
    have "x < length h" "\<forall>r \<in> set xs. r < length h" using wf Cons by simp_all
    from sumLcov_reduce_h_frame [OF this r] show ?thesis
      using Cons e sl by (cases xs) auto
  qed
  then show "length h \<le> length h2 \<and> take (length h) h2 = h \<and>
     map_option (\<lambda>s. h2 ! s) res = sumLcov (map (\<lambda>r. h ! r) data) files \<and>
     (let data' = (case files of
                     None \<Rightarrow> data
                   | Some fs \<Rightarrow> filter (\<lambda>item. file' (h ! item) \<in> fs) data)
      in case data' of
           [] \<Rightarrow> res = None \<and> h2 = h
         | [x] \<Rightarrow> res = Some x \<and> h2 = h
         | x # y # ys \<Rightarrow> (\<exists>s. res = Some s \<and> length h \<le> s \<and> s < length h2))"
    by (simp add: data'_def Let_def)
qed

theorem sumLcov_h_frame_witness:
  "sumLcov_h [example_item ''/w/a.js'' 100 80, example_item ''/w/b.js'' 10 5] [0, 1] None =
     ([example_item ''/w/a.js'' 100 80, example_item ''/w/b.js'' 10 5,
       \<lparr>file' = ''/w/a.js'', lines = \<lparr>found = 110, hit = 85\<rparr>,
        functions' = \<lparr>found = 4, hit = 2\<rparr>, branches = \<lparr>found = 8, hit = 6\<rparr>\<rparr>],
      Some 2) \<and>
   sumLcov [example_item ''/w/a.js'' 100 80, example_item ''/w/b.js'' 10 5] None =
     Some \<lparr>file' = ''/w/a.js'', lines = \<lparr>found = 110, hit = 85\<rparr>,
           functions' = \<lparr>found = 4, hit = 2\<rparr>, branches = \<lparr>found = 8, hit = 6\<rparr>\<rparr>"
proof -
  have e: "sumLcov_h [example_item ''/w/a.js'' 100 80, example_item ''/w/b.js'' 10 5]
             [0, 1] None =
     ([example_item ''/w/a.js'' 100 80, example_item ''/w/b.js'' 10 5,
       \<lparr>file' = ''/w/a.js'', lines = \<lparr>found = 110, hit = 85\<rparr>,
        functions' = \<lparr>found = 4, hit = 2\<rparr>, branches = \<lparr>found = 8, hit = 6\<rparr>\<rparr>],
      Some 2)"
    by (simp add: sumLcov_h_def alloc_def sumLcov_step_def)
  have w: "\<forall>r \<in> set [0, 1 :: nat].
             r < length [example_item ''/w/a.js'' 100 80, example_item ''/w/b.js'' 10 5]"
    by simp
  from e w sumLcov_h_frame
      [where h = "[example_item ''/w/a.js'' 100 80, example_item ''/w/b.js'' 10 5]"
         and data = "[0, 1]" and files = None
         and ?h2.0 = "[example_item ''/w/a.js'' 100 80, example_item ''/w/b.js'' 10 5,
             \<lparr>file' = ''/w/a.js'', lines = \<lparr>found = 110, hit = 85\<rparr>,
              functions' = \<lparr>found = 4, hit = 2\<rparr>, branches = \<lparr>found = 8, hit = 6\<rparr>\<rparr>]"
         and res = "Some 2"]
  show ?thesis by simp
qed

end
